theory Spec2Isabelle
  imports Complex_Main
begin

text \<open>
  A shallow embedding of the data-access core of CloudPulse Monitor and a verification
  of its specified behaviour: the API client with its retry loop (\<open>utils/api.ts\<close>,
  \<open>utils/constants.ts\<close>), the transformation of a metrics response into dashboard
  metrics (\<open>types/index.ts\<close>), the query hooks (\<open>hooks/useApi.ts\<close>) and the services
  table (\<open>backend/init-db.sql\<close>).  The definitions come first, the properties after
  them.
\<close>

section \<open>Request configuration (utils/constants.ts)\<close>

definition API_BASE_URL :: string where
  "API_BASE_URL = ''http://localhost:8000/api''"

record request_config_consts =
  TIMEOUT :: int
  RETRY_ATTEMPTS :: int
  RETRY_DELAY :: int

definition REQUEST_CONFIG :: request_config_consts where
  "REQUEST_CONFIG = \<lparr>TIMEOUT = 10000, RETRY_ATTEMPTS = 3, RETRY_DELAY = 1000\<rparr>"

section \<open>The API client (utils/api.ts)\<close>

text \<open>
  Everything the client can throw.  \<open>ApiError\<close> carries message, HTTP status, code and
  details; \<open>NetworkError\<close> carries a message only.  \<open>OtherError\<close> stands for any thrown
  value that is an instance of neither class (\<open>shouldRetry\<close> takes \<open>any\<close>).
\<close>

datatype error =
    ApiError string int "string option" "string option"
  | NetworkError string
  | OtherError string

record ApiClient =
  baseURL :: string
  defaultTimeout :: int
  defaultRetries :: int

definition new_ApiClient :: "string \<Rightarrow> ApiClient" where
  "new_ApiClient url =
     \<lparr>baseURL = url,
      defaultTimeout = TIMEOUT REQUEST_CONFIG,
      defaultRetries = RETRY_ATTEMPTS REQUEST_CONFIG\<rparr>"

definition apiClient :: ApiClient where
  "apiClient = new_ApiClient API_BASE_URL"

fun shouldRetry :: "error \<Rightarrow> bool" where
  "shouldRetry (NetworkError m) = True"
| "shouldRetry (ApiError m status c d) = (status \<ge> 500)"
| "shouldRetry (OtherError m) = False"

text \<open>
  The operation handed to \<open>withRetry\<close> is effectful: each call talks to the network again.
  It is modelled by the outcome of its \<open>i\<close>-th call, \<open>operation i\<close>, and the client's
  observable behaviour by a trace: how many calls of the operation were made, and the
  delays passed to \<open>setTimeout\<close> between them, in order.
\<close>

record trace =
  calls :: nat
  sleeps :: "int list"

definition trace0 :: trace where
  "trace0 = \<lparr>calls = 0, sleeps = []\<rparr>"

function withRetry ::
  "ApiClient \<Rightarrow> (nat \<Rightarrow> error + 'a) \<Rightarrow> int \<Rightarrow> trace \<Rightarrow> (error + 'a) \<times> trace" where
  "withRetry this operation retries t =
     (case operation (calls t) of
        Inr v \<Rightarrow> (Inr v, t\<lparr>calls := Suc (calls t)\<rparr>)
      | Inl e \<Rightarrow>
          if retries > 0 \<and> shouldRetry e then
            let delay = RETRY_DELAY REQUEST_CONFIG * (defaultRetries this - retries + 1)
            in withRetry this operation (retries - 1)
                 (t\<lparr>calls := Suc (calls t), sleeps := sleeps t @ [delay]\<rparr>)
          else (Inl e, t\<lparr>calls := Suc (calls t)\<rparr>))"
  by pat_completeness auto
termination
  by (relation "measure (\<lambda>(this, operation, retries, t). nat retries)") auto

declare withRetry.simps [simp del]


subsection \<open>One call of the operation of \<open>request\<close>\<close>

text \<open>
  The fields of an error body that \<open>parseErrorResponse\<close> looks at: \<open>error.message\<close>,
  \<open>error.code\<close>, \<open>error.details\<close>, and \<open>message\<close>, \<open>code\<close>, \<open>details\<close> at the top
  level.
\<close>

record error_data =
  error_message :: "string option"
  error_code :: "string option"
  error_details :: "string option"
  top_message :: "string option"
  top_code :: "string option"
  top_details :: "string option"

text \<open>
  The body of a response as \<open>parseErrorResponse\<close> reads it: reading throws; the JSON
  body is \<open>null\<close>; or it is any other value, seen through the fields above (an object
  with these fields for a JSON body, \<open>{message: text}\<close> for another content type).
\<close>

datatype error_body = Unreadable | JsonNull | JsonValue error_data

text \<open>
  A response as the client reads it.  \<open>payload\<close> is the body of a successful response
  (\<open>None\<close> when reading it throws).
\<close>

record 'a response =
  http_status :: int
  statusText :: string
  errorData :: error_body
  payload :: "'a option"

text \<open>
  What the network does at one call of \<open>fetch\<close>: the timeout fires and aborts it, it
  rejects with another \<open>Error\<close>, it rejects with a value that is no \<open>Error\<close>, or it
  resolves with a response.
\<close>

datatype 'a fetch_outcome =
    FetchAborted
  | FetchFailed string
  | FetchThrewNonError
  | FetchResponded "'a response"

text \<open>\<open>Response.ok\<close> of the Fetch API: the status is in the range 200 to 299.\<close>

definition ok :: "'a response \<Rightarrow> bool" where
  "ok response = (200 \<le> http_status response \<and> http_status response \<le> 299)"

definition fetchWithTimeout :: "'a fetch_outcome \<Rightarrow> error + 'a response" where
  "fetchWithTimeout outcome =
     (case outcome of
        FetchResponded response \<Rightarrow> Inr response
      | FetchAborted \<Rightarrow> Inl (NetworkError ''Request timeout'')
      | FetchFailed m \<Rightarrow> Inl (NetworkError m)
      | FetchThrewNonError \<Rightarrow> Inl (NetworkError ''Unknown network error''))"

text \<open>JavaScript's \<open>a || b\<close> on optional strings: \<open>undefined\<close> and \<open>''\<close> are falsy.\<close>

definition js_or :: "string option \<Rightarrow> string option \<Rightarrow> string option" where
  "js_or a b = (if a \<noteq> None \<and> a \<noteq> Some [] then a else b)"

text \<open>
  What \<open>throw await this.parseErrorResponse(response)\<close> throws: the \<open>ApiError\<close> built
  from the body, or, for a JSON body that is \<open>null\<close>, the \<open>TypeError\<close> of reading
  \<open>errorData.error\<close>, which is neither an \<open>ApiError\<close> nor a \<open>NetworkError\<close>.
\<close>

definition build_ApiError :: "'a response \<Rightarrow> error_data \<Rightarrow> error" where
  "build_ApiError response d =
     (let message = js_or (js_or (js_or (error_message d) (top_message d))
                      (Some (statusText response))) (Some ''Unknown error'');
          code = js_or (error_code d) (top_code d);
          details = js_or (error_details d) (top_details d)
      in ApiError (case message of Some m \<Rightarrow> m | None \<Rightarrow> []) (http_status response) code details)"

definition parseErrorResponse :: "'a response \<Rightarrow> error" where
  "parseErrorResponse response =
     (case errorData response of
        JsonValue d \<Rightarrow> build_ApiError response d
      | Unreadable \<Rightarrow>
          build_ApiError response
            \<lparr>error_message = None, error_code = None, error_details = None,
             top_message = Some ''Failed to parse error response'',
             top_code = None, top_details = None\<rparr>
      | JsonNull \<Rightarrow> OtherError ''TypeError'')"

record 'a ApiResponse =
  data :: 'a
  response_status :: int
  response_statusText :: string

definition request_operation :: "'a fetch_outcome \<Rightarrow> error + 'a ApiResponse" where
  "request_operation outcome =
     (case fetchWithTimeout outcome of
        Inl e \<Rightarrow> Inl e
      | Inr response \<Rightarrow>
          if \<not> ok response then Inl (parseErrorResponse response)
          else (case payload response of
                  None \<Rightarrow> Inl (ApiError ''Failed to parse response'' (http_status response) None None)
                | Some d \<Rightarrow> Inr \<lparr>data = d, response_status = http_status response,
                                 response_statusText = statusText response\<rparr>))"

subsection \<open>\<open>request\<close> and \<open>get\<close>\<close>

record RequestConfig =
  cfg_timeout :: "int option"
  cfg_retries :: "int option"

definition no_config :: RequestConfig where
  "no_config = \<lparr>cfg_timeout = None, cfg_retries = None\<rparr>"

text \<open>
  \<open>network i\<close> is what the network does at the \<open>i\<close>-th call of \<open>fetch\<close>.  The result is
  what the promise settles with (\<open>Inl\<close>: the error it rejects with) and the trace of
  the calls made and the delays waited.
\<close>

definition request ::
  "ApiClient \<Rightarrow> (nat \<Rightarrow> 'a fetch_outcome) \<Rightarrow> RequestConfig \<Rightarrow> (error + 'a ApiResponse) \<times> trace" where
  "request this network config =
     (let retries = (case cfg_retries config of None \<Rightarrow> defaultRetries this | Some n \<Rightarrow> n)
      in withRetry this (request_operation \<circ> network) retries trace0)"

definition get ::
  "ApiClient \<Rightarrow> (nat \<Rightarrow> 'a fetch_outcome) \<Rightarrow> RequestConfig \<Rightarrow> (error + 'a ApiResponse) \<times> trace" where
  "get this network config = request this network config"


subsection \<open>Sample networks\<close>

definition unavailable_503 :: "string response" where
  "unavailable_503 =
     \<lparr>http_status = 503, statusText = ''Service Unavailable'',
      errorData = JsonValue \<lparr>error_message = Some ''Database unavailable'',
                         error_code = Some ''SERVICE_UNAVAILABLE'', error_details = None,
                         top_message = None, top_code = None, top_details = None\<rparr>,
      payload = None\<rparr>"

definition not_found_404 :: "string response" where
  "not_found_404 =
     \<lparr>http_status = 404, statusText = ''Not Found'',
      errorData = JsonValue \<lparr>error_message = Some ''Resource not found'',
                         error_code = Some ''NOT_FOUND'', error_details = None,
                         top_message = None, top_code = None, top_details = None\<rparr>,
      payload = None\<rparr>"

definition ok_200 :: "string response" where
  "ok_200 =
     \<lparr>http_status = 200, statusText = ''OK'',
      errorData = JsonValue \<lparr>error_message = None, error_code = None, error_details = None,
                            top_message = None, top_code = None, top_details = None\<rparr>,
      payload = Some ''[]''\<rparr>"

text \<open>Every call answers 503.\<close>

definition net_503 :: "nat \<Rightarrow> string fetch_outcome" where
  "net_503 i = FetchResponded unavailable_503"

text \<open>Every call times out.\<close>

definition net_timeout :: "nat \<Rightarrow> string fetch_outcome" where
  "net_timeout i = FetchAborted"

text \<open>Every call answers 404.\<close>

definition net_404 :: "nat \<Rightarrow> string fetch_outcome" where
  "net_404 i = FetchResponded not_found_404"

text \<open>Two 503 responses, then 200.\<close>

definition net_503_503_200 :: "nat \<Rightarrow> string fetch_outcome" where
  "net_503_503_200 i = FetchResponded (if i < 2 then unavailable_503 else ok_200)"

section \<open>Metrics shown by the dashboard (types/index.ts)\<close>

text \<open>
  A JavaScript \<open>number\<close> that arrives in a JSON body is a finite double; comparing two
  of them agrees with comparing the reals they denote, so metric values are reals here.
\<close>

datatype metric_status = healthy | warning | critical

datatype metric_trend = up | down | stable

record Metric =
  name :: string
  "value" :: real
  unit :: string
  status :: metric_status
  trend :: metric_trend
  timestamp :: "string option"

text \<open>The body of \<open>GET /metrics\<close>; its \<open>timestamp\<close> field is \<open>response_timestamp\<close> here.\<close>

record MetricsApiResponse =
  cpu_usage :: real
  memory_usage :: real
  network_traffic :: real
  container_count :: real
  overall_health :: real
  response_timestamp :: string

definition getMetricStatus :: "real \<Rightarrow> real \<Rightarrow> real \<Rightarrow> metric_status" where
  "getMetricStatus v criticalThreshold warningThreshold =
     (if v > criticalThreshold then critical
      else if v > warningThreshold then warning
      else healthy)"

definition getHealthStatus :: "real \<Rightarrow> metric_status" where
  "getHealthStatus v =
     (if v > 90 then healthy
      else if v > 70 then warning
      else critical)"

definition transformMetricsResponse :: "MetricsApiResponse \<Rightarrow> Metric list" where
  "transformMetricsResponse apiResponse =
     [\<lparr>name = ''CPU Usage'',
       value = cpu_usage apiResponse,
       unit = ''%'',
       status = getMetricStatus (cpu_usage apiResponse) 80 60,
       trend = stable,
       timestamp = Some (response_timestamp apiResponse)\<rparr>,
      \<lparr>name = ''Memory Usage'',
       value = memory_usage apiResponse,
       unit = ''%'',
       status = getMetricStatus (memory_usage apiResponse) 85 70,
       trend = stable,
       timestamp = Some (response_timestamp apiResponse)\<rparr>,
      \<lparr>name = ''Network Traffic'',
       value = network_traffic apiResponse,
       unit = ''MB/s'',
       status = (if network_traffic apiResponse > 1000 then warning else healthy),
       trend = stable,
       timestamp = Some (response_timestamp apiResponse)\<rparr>,
      \<lparr>name = ''Container Count'',
       value = container_count apiResponse,
       unit = ''containers'',
       status = healthy,
       trend = stable,
       timestamp = Some (response_timestamp apiResponse)\<rparr>,
      \<lparr>name = ''Overall Health'',
       value = overall_health apiResponse,
       unit = ''%'',
       status = getHealthStatus (overall_health apiResponse),
       trend = stable,
       timestamp = Some (response_timestamp apiResponse)\<rparr>]"

text \<open>The strict ordering of the statuses, critical above warning above healthy.\<close>

fun severity :: "metric_status \<Rightarrow> nat" where
  "severity healthy = 0"
| "severity warning = 1"
| "severity critical = 2"

subsection \<open>Sample responses\<close>

text \<open>Two consecutive responses: every value of the second is above the first's.\<close>

definition response_before :: MetricsApiResponse where
  "response_before =
     \<lparr>cpu_usage = 45, memory_usage = 60, network_traffic = 300, container_count = 20,
      overall_health = 50, response_timestamp = ''2024-01-15T10:30:00Z''\<rparr>"

definition response_after :: MetricsApiResponse where
  "response_after =
     \<lparr>cpu_usage = 90, memory_usage = 80, network_traffic = 1200, container_count = 24,
      overall_health = 95, response_timestamp = ''2024-01-15T10:30:05Z''\<rparr>"

section \<open>The query hooks (hooks/useApi.ts)\<close>

subsection \<open>Query options\<close>

text \<open>
  A property of an options object: the object does not have it, has it with the value
  \<open>undefined\<close>, or has it with a value.
\<close>

datatype 'a field = Absent | Undefined | Present 'a

text \<open>
  The options object a hook hands to \<open>useQuery\<close>, restricted to the fields the hooks
  set.
\<close>

record query_options =
  refetchInterval :: "int field"
  staleTime :: "int field"
  gcTime :: "int field"
  retry :: "(nat \<Rightarrow> error \<Rightarrow> bool) field"
  retryDelay :: "(nat \<Rightarrow> int) field"
  enabled :: "bool field"

definition no_options :: query_options where
  "no_options =
     \<lparr>refetchInterval = Absent, staleTime = Absent, gcTime = Absent, retry = Absent,
      retryDelay = Absent, enabled = Absent\<rparr>"

text \<open>
  \<open>{...a, ...b}\<close>: a property that \<open>b\<close> has wins, also when its value is \<open>undefined\<close>.
\<close>

definition later :: "'a field \<Rightarrow> 'a field \<Rightarrow> 'a field" where
  "later a b = (case b of Absent \<Rightarrow> a | _ \<Rightarrow> b)"

definition spread :: "query_options \<Rightarrow> query_options \<Rightarrow> query_options" where
  "spread a b =
     \<lparr>refetchInterval = later (refetchInterval a) (refetchInterval b),
      staleTime = later (staleTime a) (staleTime b),
      gcTime = later (gcTime a) (gcTime b),
      retry = later (retry a) (retry b),
      retryDelay = later (retryDelay a) (retryDelay b),
      enabled = later (enabled a) (enabled b)\<rparr>"

definition DEFAULT_QUERY_OPTIONS_retry :: "nat \<Rightarrow> error \<Rightarrow> bool" where
  "DEFAULT_QUERY_OPTIONS_retry failureCount err =
     (case err of
        ApiError m s c d \<Rightarrow> if s \<ge> 400 \<and> s < 500 then False else failureCount < 3
      | _ \<Rightarrow> failureCount < 3)"

definition DEFAULT_QUERY_OPTIONS_retryDelay :: "nat \<Rightarrow> int" where
  "DEFAULT_QUERY_OPTIONS_retryDelay attemptIndex = min (1000 * 2 ^ attemptIndex) 30000"

definition DEFAULT_QUERY_OPTIONS :: query_options where
  "DEFAULT_QUERY_OPTIONS =
     \<lparr>refetchInterval = Absent,
      staleTime = Present (30 * 1000),
      gcTime = Present (5 * 60 * 1000),
      retry = Present DEFAULT_QUERY_OPTIONS_retry,
      retryDelay = Present DEFAULT_QUERY_OPTIONS_retryDelay,
      enabled = Absent\<rparr>"

text \<open>Each hook, as the options it passes to \<open>useQuery\<close> for the caller's \<open>options\<close>.\<close>

definition useMetrics :: "query_options \<Rightarrow> query_options" where
  "useMetrics options =
     spread (spread (no_options\<lparr>refetchInterval := Present 5000\<rparr>) DEFAULT_QUERY_OPTIONS) options"

definition useServices :: "query_options \<Rightarrow> query_options" where
  "useServices options =
     spread (spread (no_options\<lparr>refetchInterval := Present 10000\<rparr>) DEFAULT_QUERY_OPTIONS) options"

definition useLogs :: "query_options \<Rightarrow> query_options" where
  "useLogs options =
     spread (spread (no_options\<lparr>refetchInterval := Present 15000\<rparr>) DEFAULT_QUERY_OPTIONS) options"

definition useSystemStatus :: "query_options \<Rightarrow> query_options" where
  "useSystemStatus options =
     spread (spread (no_options\<lparr>refetchInterval := Present 30000\<rparr>) DEFAULT_QUERY_OPTIONS) options"

subsection \<open>The endpoint of the logs query\<close>

definition API_ENDPOINTS_LOGS :: string where
  "API_ENDPOINTS_LOGS = ''/logs/''"

text \<open>
  A JavaScript \<open>number\<close>: \<open>NaN\<close>, one of the two infinities, or a finite number (both
  zeros are \<open>Number 0\<close>).  The finite doubles are some of the reals; what is shown for
  every real holds for them.
\<close>

datatype js_number = NaN | PositiveInfinity | NegativeInfinity | Number real

text \<open>A number in a condition: \<open>0\<close> and \<open>NaN\<close> are falsy, every other number is truthy.\<close>

definition truthy :: "js_number \<Rightarrow> bool" where
  "truthy n = (case n of NaN \<Rightarrow> False | Number x \<Rightarrow> x \<noteq> 0 | _ \<Rightarrow> True)"

text \<open>The caller's parameters; \<open>None\<close> is a field left out.\<close>

record LogsParams =
  limit :: "js_number option"
  level :: "string option"
  service :: "string option"
  offset :: "js_number option"

definition digit_char :: "nat \<Rightarrow> char" where
  "digit_char d = ''0123456789ABCDEF'' ! d"

fun digits :: "nat \<Rightarrow> string" where
  "digits n =
     (if n < 10 then [digit_char n]
      else digits (n div 10) @ [digit_char (n mod 10)])"

declare digits.simps [simp del]

text \<open>
  The entries appended to \<open>queryParams\<close>, in order.  A parameter is appended when its
  value is truthy; the empty string is the falsy string.  \<open>Number.prototype.toString\<close>
  belongs to the platform, not to the repository: the hook is given it as \<open>toString\<close>,
  and what is shown of the hook holds for every such function.
\<close>

definition queryParams :: "(js_number \<Rightarrow> string) \<Rightarrow> LogsParams \<Rightarrow> (string \<times> string) list" where
  "queryParams toString params =
     (case limit params of
        Some n \<Rightarrow> if truthy n then [(''limit'', toString n)] else []
      | None \<Rightarrow> []) @
     (case level params of
        Some s \<Rightarrow> if s \<noteq> [] then [(''level'', s)] else []
      | None \<Rightarrow> []) @
     (case service params of
        Some s \<Rightarrow> if s \<noteq> [] then [(''service'', s)] else []
      | None \<Rightarrow> []) @
     (case offset params of
        Some n \<Rightarrow> if truthy n then [(''offset'', toString n)] else []
      | None \<Rightarrow> [])"

text \<open>
  \<open>URLSearchParams.toString\<close>: the \<open>application/x-www-form-urlencoded\<close> serialisation.
  A byte that is alphanumeric or one of \<open>*-._\<close> stands for itself, a space becomes \<open>+\<close>,
  every other byte is percent-encoded (two upper-case hexadecimal digits).  Strings are
  their UTF-8 bytes.
\<close>

definition unreserved :: string where
  "unreserved = ''ABCDEFGHIJKLMNOPQRSTUVWXYZabcdefghijklmnopqrstuvwxyz0123456789*-._''"

definition urlencode_byte :: "char \<Rightarrow> string" where
  "urlencode_byte c =
     (if c \<in> set unreserved then [c]
      else if c = CHR '' '' then ''+''
      else [CHR ''%'', digit_char (of_char c div 16), digit_char (of_char c mod 16)])"

definition urlencode :: "string \<Rightarrow> string" where
  "urlencode s = concat (map urlencode_byte s)"

fun serialize :: "(string \<times> string) list \<Rightarrow> string" where
  "serialize [] = []"
| "serialize [(k, v)] = urlencode k @ ''='' @ urlencode v"
| "serialize ((k, v) # rest) = urlencode k @ ''='' @ urlencode v @ ''&'' @ serialize rest"

definition useLogs_endpoint :: "(js_number \<Rightarrow> string) \<Rightarrow> LogsParams \<Rightarrow> string" where
  "useLogs_endpoint toString params =
     (let queryString = serialize (queryParams toString params)
      in if queryString \<noteq> [] then API_ENDPOINTS_LOGS @ ''?'' @ queryString
         else API_ENDPOINTS_LOGS)"

subsection \<open>Sample numbers as text\<close>

text \<open>
  The decimal text of an integer-valued number, and the JavaScript texts of \<open>NaN\<close> and
  the infinities.  On the integers of absolute value below \<open>2^53\<close> this is what
  \<open>Number.prototype.toString\<close> returns; it stands for that function in the samples,
  which use it on such integers only.
\<close>

definition integer_text :: "js_number \<Rightarrow> string" where
  "integer_text n =
     (case n of
        NaN \<Rightarrow> ''NaN''
      | PositiveInfinity \<Rightarrow> ''Infinity''
      | NegativeInfinity \<Rightarrow> ''-Infinity''
      | Number x \<Rightarrow>
          if x < 0 then CHR ''-'' # digits (nat \<lfloor>- x\<rfloor>) else digits (nat \<lfloor>x\<rfloor>))"

section \<open>The services table (backend/init-db.sql)\<close>

text \<open>
  \<^verbatim>\<open>
  CREATE TABLE IF NOT EXISTS services (
      id VARCHAR(50) PRIMARY KEY,
      name VARCHAR(100) NOT NULL,
      status VARCHAR(20) NOT NULL CHECK (status IN ('online', 'degraded', 'offline')),
      uptime DECIMAL(5,2) DEFAULT 0.0 CHECK (uptime >= 0.0 AND uptime <= 100.0),
      last_checked TIMESTAMP WITH TIME ZONE DEFAULT NOW(),
      created_at TIMESTAMP WITH TIME ZONE DEFAULT NOW(),
      updated_at TIMESTAMP WITH TIME ZONE DEFAULT NOW()
  );
  \<close>
  A row of the table.  A \<open>DECIMAL(5,2)\<close> is kept as its number of hundredths; \<open>None\<close> is
  SQL's \<open>NULL\<close> in a column that allows it; a timestamp is a point on an integer clock.
\<close>

record service =
  svc_id :: string
  svc_name :: string
  svc_status :: string
  uptime :: "int option"
  last_checked :: "int option"
  created_at :: "int option"
  updated_at :: "int option"

type_synonym services = "service list"

datatype sql_error =
    string_too_long
  | numeric_overflow
  | not_null_violation
  | check_violation
  | unique_violation

text \<open>What a statement supplies for a column.\<close>

datatype 'a sql_value = DEFAULT | NULL | Val 'a

text \<open>Running the second step on the result of the first, unless that is an error.\<close>

definition and_then :: "'e + 'a \<Rightarrow> ('a \<Rightarrow> 'e + 'b) \<Rightarrow> 'e + 'b" where
  "and_then r f = (case r of Inl e \<Rightarrow> Inl e | Inr x \<Rightarrow> f x)"

subsection \<open>Column types\<close>

text \<open>
  \<open>VARCHAR(n)\<close>: a longer string is an error, unless all that exceeds \<open>n\<close> characters
  is spaces, which are cut off.
\<close>

definition varchar :: "nat \<Rightarrow> string \<Rightarrow> sql_error + string" where
  "varchar n s =
     (if length s \<le> n then Inr s
      else if \<forall>c \<in> set (drop n s). c = CHR '' '' then Inr (take n s)
      else Inl string_too_long)"

text \<open>Rounding to the nearest integer, a tie away from zero, as \<open>numeric\<close> rounds.\<close>

definition round_half_away :: "rat \<Rightarrow> int" where
  "round_half_away x = (if 0 \<le> x then \<lfloor>x + 1 / 2\<rfloor> else - \<lfloor>- x + 1 / 2\<rfloor>)"

text \<open>
  \<open>DECIMAL(5,2)\<close>: the value is rounded to two decimal places; a rounded value of
  1000 or more in absolute value does not fit five digits and is an error.
\<close>

definition decimal_5_2 :: "rat \<Rightarrow> sql_error + int" where
  "decimal_5_2 x =
     (let h = round_half_away (x * 100)
      in if \<bar>h\<bar> \<ge> 100000 then Inl numeric_overflow else Inr h)"

text \<open>The value of a stored \<open>DECIMAL(5,2)\<close>.\<close>

definition decimal_value :: "int \<Rightarrow> rat" where
  "decimal_value h = of_int h / 100"

definition uptime_percent :: "service \<Rightarrow> rat option" where
  "uptime_percent r = map_option decimal_value (uptime r)"

subsection \<open>Constraints\<close>

text \<open>A \<open>CHECK\<close> whose expression is \<open>NULL\<close> is satisfied.\<close>

definition status_check :: "string \<Rightarrow> bool" where
  "status_check s = (s \<in> set [''online'', ''degraded'', ''offline''])"

definition uptime_check :: "int option \<Rightarrow> bool" where
  "uptime_check u =
     (case u of
        None \<Rightarrow> True
      | Some h \<Rightarrow> decimal_value h \<ge> 0 \<and> decimal_value h \<le> 100)"

definition not_null :: "'a sql_value \<Rightarrow> sql_error + 'a" where
  "not_null v = (case v of Val x \<Rightarrow> Inr x | _ \<Rightarrow> Inl not_null_violation)"

text \<open>The value stored in \<open>uptime\<close>: its default is 0.0.\<close>

definition uptime_column :: "rat sql_value \<Rightarrow> sql_error + int option" where
  "uptime_column v =
     (case v of
        DEFAULT \<Rightarrow> Inr (Some 0)
      | NULL \<Rightarrow> Inr None
      | Val x \<Rightarrow> and_then (decimal_5_2 x) (\<lambda>h. Inr (Some h)))"

definition checks :: "service \<Rightarrow> sql_error + service" where
  "checks r =
     (if status_check (svc_status r) \<and> uptime_check (uptime r) then Inr r
      else Inl check_violation)"

subsection \<open>Statements\<close>

text \<open>
  \<open>INSERT INTO services (id, name, status, uptime) VALUES (...)\<close>; the three timestamps
  take their default, \<open>NOW()\<close>.  The columns \<open>id\<close>, \<open>name\<close> and \<open>status\<close> have no default
  other than \<open>NULL\<close>.
\<close>

record insert_values =
  ins_id :: "string sql_value"
  ins_name :: "string sql_value"
  ins_status :: "string sql_value"
  ins_uptime :: "rat sql_value"

definition insert_service :: "int \<Rightarrow> insert_values \<Rightarrow> services \<Rightarrow> sql_error + services" where
  "insert_service now v rows =
     and_then (case ins_id v of Val s \<Rightarrow> and_then (varchar 50 s) (\<lambda>s. Inr (Val s)) | x \<Rightarrow> Inr x) (\<lambda>i.
     and_then (case ins_name v of Val s \<Rightarrow> and_then (varchar 100 s) (\<lambda>s. Inr (Val s)) | x \<Rightarrow> Inr x) (\<lambda>n.
     and_then (case ins_status v of Val s \<Rightarrow> and_then (varchar 20 s) (\<lambda>s. Inr (Val s)) | x \<Rightarrow> Inr x) (\<lambda>s.
     and_then (uptime_column (ins_uptime v)) (\<lambda>u.
     and_then (not_null i) (\<lambda>i.
     and_then (not_null n) (\<lambda>n.
     and_then (not_null s) (\<lambda>s.
     and_then (checks \<lparr>svc_id = i, svc_name = n, svc_status = s, uptime = u,
                        last_checked = Some now, created_at = Some now,
                        updated_at = Some now\<rparr>) (\<lambda>r.
     if i \<in> set (map svc_id rows) then Inl unique_violation
     else Inr (rows @ [r])))))))))"

text \<open>
  \<open>UPDATE services SET status = ..., uptime = ..., last_checked = NOW() WHERE ...\<close>: the
  condition is a function of the row before the update, a column that is \<open>None\<close> is not
  assigned.  The trigger \<open>update_services_updated_at\<close> sets
  \<open>updated_at\<close> to \<open>NOW()\<close> in every row updated.  One row that fails makes the
  statement fail as a whole.
\<close>

text \<open>
  An assigned expression: one that reads no column of the row, a constant, or one
  computed from the row before the update.
\<close>

datatype 'a assigned = Constant "'a sql_value" | Computed "service \<Rightarrow> 'a sql_value"

fun assigned_value :: "'a assigned \<Rightarrow> service \<Rightarrow> 'a sql_value" where
  "assigned_value (Constant v) r = v"
| "assigned_value (Computed f) r = f r"

record update_stmt =
  upd_where :: "service \<Rightarrow> bool"
  upd_status :: "string assigned option"
  upd_uptime :: "rat assigned option"

text \<open>
  A constant is brought to the column's type when the statement is planned, before any
  row is looked at: a constant that does not fit makes the statement fail even when no
  row matches the condition.
\<close>

definition plan_update :: "update_stmt \<Rightarrow> sql_error + unit" where
  "plan_update u =
     and_then (case upd_status u of
                 Some (Constant (Val s)) \<Rightarrow> and_then (varchar 20 s) (\<lambda>s. Inr ())
               | _ \<Rightarrow> Inr ()) (\<lambda>_.
     case upd_uptime u of
       Some (Constant v) \<Rightarrow> and_then (uptime_column v) (\<lambda>p. Inr ())
     | _ \<Rightarrow> Inr ())"

text \<open>
  One row: the assigned values are brought to their columns' types, then \<open>NOT NULL\<close>
  is checked, then the \<open>CHECK\<close> constraints.
\<close>

definition update_row :: "int \<Rightarrow> update_stmt \<Rightarrow> service \<Rightarrow> sql_error + service" where
  "update_row now u r =
     and_then (case upd_status u of
                 None \<Rightarrow> Inr (Val (svc_status r))
               | Some e \<Rightarrow>
                   (case assigned_value e r of
                      Val s \<Rightarrow> and_then (varchar 20 s) (\<lambda>s. Inr (Val s))
                    | x \<Rightarrow> Inr x)) (\<lambda>s.
     and_then (case upd_uptime u of
                 None \<Rightarrow> Inr (uptime r)
               | Some e \<Rightarrow> uptime_column (assigned_value e r)) (\<lambda>p.
     and_then (not_null s) (\<lambda>s.
     checks (r\<lparr>svc_status := s, uptime := p, last_checked := Some now,
               updated_at := Some now\<rparr>))))"

fun update_rows :: "int \<Rightarrow> update_stmt \<Rightarrow> services \<Rightarrow> sql_error + services" where
  "update_rows now u [] = Inr []"
| "update_rows now u (r # rows) =
     (if upd_where u r
      then and_then (update_row now u r) (\<lambda>r'.
           and_then (update_rows now u rows) (\<lambda>rows'. Inr (r' # rows')))
      else and_then (update_rows now u rows) (\<lambda>rows'. Inr (r # rows')))"

definition update :: "int \<Rightarrow> update_stmt \<Rightarrow> services \<Rightarrow> sql_error + services" where
  "update now u rows = and_then (plan_update u) (\<lambda>_. update_rows now u rows)"

datatype statement = Insert insert_values | Update update_stmt

fun execute :: "int \<Rightarrow> statement \<Rightarrow> services \<Rightarrow> sql_error + services" where
  "execute now (Insert v) rows = insert_service now v rows"
| "execute now (Update u) rows = update now u rows"

text \<open>
  A sequence of statements, each with the time it runs at, each in a transaction of its
  own: a statement that fails leaves the table as it was.
\<close>

fun run :: "services \<Rightarrow> (int \<times> statement) list \<Rightarrow> services" where
  "run rows [] = rows"
| "run rows ((now, stmt) # stmts) =
     (case execute now stmt rows of
        Inl e \<Rightarrow> run rows stmts
      | Inr rows' \<Rightarrow> run rows' stmts)"

subsection \<open>The initial rows\<close>

definition seed_values :: "insert_values list" where
  "seed_values =
     [\<lparr>ins_id = Val ''api-gateway'', ins_name = Val ''API Gateway'',
       ins_status = Val ''online'', ins_uptime = Val (9998 / 100)\<rparr>,
      \<lparr>ins_id = Val ''user-service'', ins_name = Val ''User Service'',
       ins_status = Val ''online'', ins_uptime = Val (9995 / 100)\<rparr>,
      \<lparr>ins_id = Val ''payment-service'', ins_name = Val ''Payment Service'',
       ins_status = Val ''online'', ins_uptime = Val (9987 / 100)\<rparr>,
      \<lparr>ins_id = Val ''notification-service'', ins_name = Val ''Notification Service'',
       ins_status = Val ''degraded'', ins_uptime = Val (9845 / 100)\<rparr>,
      \<lparr>ins_id = Val ''analytics-service'', ins_name = Val ''Analytics Service'',
       ins_status = Val ''online'', ins_uptime = Val (9992 / 100)\<rparr>,
      \<lparr>ins_id = Val ''file-storage'', ins_name = Val ''File Storage'',
       ins_status = Val ''online'', ins_uptime = Val (9999 / 100)\<rparr>]"

text \<open>The table after the script ran at time \<open>now\<close> on an empty database.\<close>

definition init_db :: "int \<Rightarrow> services" where
  "init_db now = run [] (map (\<lambda>v. (now, Insert v)) seed_values)"

subsection \<open>Sample statements\<close>

text \<open>
  A transition of the API gateway to \<open>degraded\<close> that multiplies its uptime by 0.99;
  an adjustment that would push every uptime beyond 100; one that would make the
  payment service's uptime negative; and a new service inserted with no uptime.
\<close>

definition degrade_gateway :: statement where
  "degrade_gateway =
     Update \<lparr>upd_where = (\<lambda>r. svc_id r = ''api-gateway''),
             upd_status = Some (Constant (Val ''degraded'')),
             upd_uptime = Some (Computed (\<lambda>r. case uptime_percent r of
                                                None \<Rightarrow> NULL
                                              | Some p \<Rightarrow> Val (p * (99 / 100))))\<rparr>"

definition add_five_everywhere :: statement where
  "add_five_everywhere =
     Update \<lparr>upd_where = (\<lambda>r. True),
             upd_status = None,
             upd_uptime = Some (Computed (\<lambda>r. case uptime_percent r of
                                                None \<Rightarrow> NULL
                                              | Some p \<Rightarrow> Val (p + 5)))\<rparr>"

definition payment_below_zero :: statement where
  "payment_below_zero =
     Update \<lparr>upd_where = (\<lambda>r. svc_id r = ''payment-service''),
             upd_status = Some (Constant (Val ''offline'')),
             upd_uptime = Some (Constant (Val (- 1 / 2)))\<rparr>"

definition insert_search :: statement where
  "insert_search =
     Insert \<lparr>ins_id = Val ''search'', ins_name = Val ''Search'',
             ins_status = Val ''online'', ins_uptime = DEFAULT\<rparr>"

definition sample_statements :: "(int \<times> statement) list" where
  "sample_statements =
     [(1, degrade_gateway), (2, add_five_everywhere), (3, payment_below_zero),
      (4, insert_search)]"

subsection \<open>Statements that adjust the uptime to a number\<close>

text \<open>
  A statement keeps the uptime numeric when it does not put \<open>NULL\<close> where a number was:
  an insert that does not give \<open>NULL\<close> for the uptime, an update whose uptime expression
  is \<open>NULL\<close> only on rows whose uptime is \<open>NULL\<close> already (as \<open>uptime * 0.99\<close> is).
\<close>

definition keeps_uptime_numeric :: "statement \<Rightarrow> bool" where
  "keeps_uptime_numeric stmt =
     (case stmt of
        Insert v \<Rightarrow> ins_uptime v \<noteq> NULL
      | Update u \<Rightarrow>
          (case upd_uptime u of
             None \<Rightarrow> True
           | Some e \<Rightarrow> \<forall>r. assigned_value e r = NULL \<longrightarrow> uptime r = None))"

section \<open>Properties of the API client\<close>

subsection \<open>The three ways one attempt can end\<close>

lemma withRetry_success:
  "operation (calls t) = Inr v \<Longrightarrow>
   withRetry this operation retries t = (Inr v, t\<lparr>calls := Suc (calls t)\<rparr>)"
  by (simp add: withRetry.simps [of this operation retries t])

lemma withRetry_give_up:
  "operation (calls t) = Inl e \<Longrightarrow> \<not> (retries > 0 \<and> shouldRetry e) \<Longrightarrow>
   withRetry this operation retries t = (Inl e, t\<lparr>calls := Suc (calls t)\<rparr>)"
  by (auto simp add: withRetry.simps [of this operation retries t])

lemma withRetry_again:
  "operation (calls t) = Inl e \<Longrightarrow> retries > 0 \<Longrightarrow> shouldRetry e \<Longrightarrow>
   withRetry this operation retries t =
     withRetry this operation (retries - 1)
       (t\<lparr>calls := Suc (calls t),
          sleeps := sleeps t @ [RETRY_DELAY REQUEST_CONFIG * (defaultRetries this - retries + 1)]\<rparr>)"
  by (simp add: withRetry.simps [of this operation retries t])

subsection \<open>The calls made and the delays waited\<close>

lemma withRetry_calls_gt: "calls t < calls (snd (withRetry this operation retries t))"
proof (induction this operation retries t rule: withRetry.induct)
  case (1 this operation retries t)
  show ?case
  proof (cases "operation (calls t)")
    case (Inr v)
    then show ?thesis by (simp add: withRetry_success)
  next
    case (Inl e)
    show ?thesis
    proof (cases "retries > 0 \<and> shouldRetry e")
      case True
      with Inl 1 [of e] show ?thesis
        by (simp add: withRetry_again)
    next
      case False
      with Inl show ?thesis by (simp add: withRetry_give_up)
    qed
  qed
qed

lemma withRetry_calls_le:
  "calls (snd (withRetry this operation retries t)) \<le> calls t + nat retries + 1"
proof (induction this operation retries t rule: withRetry.induct)
  case (1 this operation retries t)
  show ?case
  proof (cases "operation (calls t)")
    case (Inr v)
    then show ?thesis by (simp add: withRetry_success)
  next
    case (Inl e)
    show ?thesis
    proof (cases "retries > 0 \<and> shouldRetry e")
      case True
      then have "nat (retries - 1) + 1 = nat retries" by linarith
      with True Inl 1 [of e] show ?thesis
        by (simp add: withRetry_again)
    next
      case False
      with Inl show ?thesis by (simp add: withRetry_give_up)
    qed
  qed
qed

text \<open>The result is the outcome of the last call made, as it is.\<close>

lemma withRetry_result_last:
  "fst (withRetry this operation retries t) =
     operation (calls (snd (withRetry this operation retries t)) - 1)"
proof (induction this operation retries t rule: withRetry.induct)
  case (1 this operation retries t)
  show ?case
  proof (cases "operation (calls t)")
    case (Inr v)
    then show ?thesis by (simp add: withRetry_success)
  next
    case (Inl e)
    show ?thesis
    proof (cases "retries > 0 \<and> shouldRetry e")
      case True
      with Inl 1 [of e] show ?thesis
        by (simp add: withRetry_again)
    next
      case False
      with Inl show ?thesis by (simp add: withRetry_give_up)
    qed
  qed
qed

text \<open>The delays waited: one before each call after the first.\<close>

lemma withRetry_sleeps:
  "sleeps (snd (withRetry this operation retries t)) =
     sleeps t @
     map (\<lambda>j. RETRY_DELAY REQUEST_CONFIG * (defaultRetries this - retries + 1 + int j))
       [0 ..< calls (snd (withRetry this operation retries t)) - calls t - 1]"
proof (induction this operation retries t rule: withRetry.induct)
  case (1 this operation retries t)
  show ?case
  proof (cases "operation (calls t)")
    case (Inr v)
    then show ?thesis by (simp add: withRetry_success)
  next
    case (Inl e)
    show ?thesis
    proof (cases "retries > 0 \<and> shouldRetry e")
      case True
      let ?t1 = "t\<lparr>calls := Suc (calls t),
          sleeps := sleeps t @ [RETRY_DELAY REQUEST_CONFIG * (defaultRetries this - retries + 1)]\<rparr>"
      let ?n = "calls (snd (withRetry this operation (retries - 1) ?t1))"
      have eq: "withRetry this operation retries t = withRetry this operation (retries - 1) ?t1"
        using Inl True by (simp add: withRetry_again)
      have gt: "Suc (calls t) < ?n"
        using withRetry_calls_gt [of ?t1 this operation "retries - 1"] by simp
      define k where "k = ?n - Suc (calls t) - 1"
      have k: "?n - calls t - 1 = Suc k"
        using gt by (simp add: k_def)
      have ih: "sleeps (snd (withRetry this operation (retries - 1) ?t1)) =
         sleeps ?t1 @ map (\<lambda>j. RETRY_DELAY REQUEST_CONFIG * (defaultRetries this - (retries - 1) + 1 + int j))
           [0 ..< k]"
        using 1 [of e] Inl True by (simp add: k_def)
      have shift: "map (\<lambda>j. RETRY_DELAY REQUEST_CONFIG * (defaultRetries this - retries + 1 + int j)) [0 ..< Suc k]
         = (RETRY_DELAY REQUEST_CONFIG * (defaultRetries this - retries + 1)) #
           map (\<lambda>j. RETRY_DELAY REQUEST_CONFIG * (defaultRetries this - (retries - 1) + 1 + int j)) [0 ..< k]"
        by (simp only: map_upt_Suc) (simp add: algebra_simps)
      show ?thesis
        unfolding eq ih k shift by simp
    next
      case False
      with Inl show ?thesis by (simp add: withRetry_give_up)
    qed
  qed
qed


lemma withRetry_calls_all_fail:
  "(\<forall>i. \<exists>e. operation i = Inl e \<and> shouldRetry e) \<Longrightarrow>
   calls (snd (withRetry this operation retries t)) = calls t + nat retries + 1"
proof (induction this operation retries t rule: withRetry.induct)
  case (1 this operation retries t)
  from "1.prems" obtain e where e: "operation (calls t) = Inl e" "shouldRetry e"
    by blast
  show ?case
  proof (cases "retries > 0")
    case True
    then have "nat (retries - 1) + 1 = nat retries" by linarith
    with True e "1.IH" [of e] "1.prems" show ?thesis
      by (simp add: withRetry_again)
  next
    case False
    with e show ?thesis by (simp add: withRetry_give_up)
  qed
qed


subsection \<open>Evaluating a request on a sample network\<close>

lemmas client_eval =
  request_def get_def apiClient_def new_ApiClient_def REQUEST_CONFIG_def no_config_def
  trace0_def request_operation_def fetchWithTimeout_def parseErrorResponse_def
  build_ApiError_def ok_def
  js_or_def withRetry.simps Let_def

lemmas nets_eval =
  net_503_def net_timeout_def net_404_def net_503_503_200_def
  unavailable_503_def not_found_404_def ok_200_def


lemma shouldRetry_iff:
  "shouldRetry e = ((\<exists>m. e = NetworkError m) \<or> (\<exists>m s c d. e = ApiError m s c d \<and> 500 \<le> s))"
  by (cases e) simp_all

subsection \<open>Which failures are retried\<close>

text \<open>
  Claim C1.  A failed attempt that still has retries left is followed by a further
  attempt if and only if its failure is classified retryable, and a failure is
  classified retryable exactly when it is a \<open>NetworkError\<close>, or an \<open>ApiError\<close> whose
  HTTP status is at least 500.  A failure that is not retryable is surfaced at once,
  unchanged, with no further attempt and no delay, whatever the number of retries left;
  an \<open>ApiError\<close> with a 4xx status (a 404, say) is such a failure.  So a request made
  with the default configuration whose first attempt fails is retried if and only if
  that failure is retryable.
\<close>

theorem withRetry_retries_iff_retryable:
  assumes "operation (calls t) = Inl e"
  shows "(0 < retries \<longrightarrow>
            (Suc (calls t) < calls (snd (withRetry this operation retries t))) = shouldRetry e)
       \<and> shouldRetry e
           = ((\<exists>m. e = NetworkError m) \<or> (\<exists>m s c d. e = ApiError m s c d \<and> 500 \<le> s))
       \<and> (\<not> shouldRetry e \<longrightarrow>
            withRetry this operation retries t = (Inl e, t\<lparr>calls := Suc (calls t)\<rparr>))
       \<and> (\<forall>m s c d. e = ApiError m s c d \<and> 400 \<le> s \<and> s < 500 \<longrightarrow>
            withRetry this operation retries t = (Inl e, t\<lparr>calls := Suc (calls t)\<rparr>))
       \<and> (request_operation (network 0) = Inl e \<longrightarrow>
            (1 < calls (snd (get apiClient network no_config))) = shouldRetry e)"
proof (intro conjI impI allI)
  assume "0 < retries"
  show "(Suc (calls t) < calls (snd (withRetry this operation retries t))) = shouldRetry e"
  proof (cases "shouldRetry e")
    case True
    let ?t1 = "t\<lparr>calls := Suc (calls t),
          sleeps := sleeps t @ [RETRY_DELAY REQUEST_CONFIG * (defaultRetries this - retries + 1)]\<rparr>"
    have "calls ?t1 < calls (snd (withRetry this operation (retries - 1) ?t1))"
      by (rule withRetry_calls_gt)
    with True \<open>0 < retries\<close> assms show ?thesis by (simp add: withRetry_again)
  next
    case False
    with assms show ?thesis by (simp add: withRetry_give_up)
  qed
next
  show "shouldRetry e
           = ((\<exists>m. e = NetworkError m) \<or> (\<exists>m s c d. e = ApiError m s c d \<and> 500 \<le> s))"
    by (rule shouldRetry_iff)
next
  assume "\<not> shouldRetry e"
  with assms show "withRetry this operation retries t = (Inl e, t\<lparr>calls := Suc (calls t)\<rparr>)"
    by (simp add: withRetry_give_up)
next
  fix m s c d assume "e = ApiError m s c d \<and> 400 \<le> s \<and> s < 500"
  then have "\<not> shouldRetry e" by simp
  with assms show "withRetry this operation retries t = (Inl e, t\<lparr>calls := Suc (calls t)\<rparr>)"
    by (simp add: withRetry_give_up)
next
  assume first: "request_operation (network 0) = Inl e"
  let ?op = "request_operation \<circ> network"
  have run: "get apiClient network no_config = withRetry apiClient ?op 3 trace0"
    by (simp add: get_def request_def no_config_def apiClient_def new_ApiClient_def
        REQUEST_CONFIG_def)
  from first have op0: "?op (calls trace0) = Inl e" by (simp add: trace0_def)
  show "(1 < calls (snd (get apiClient network no_config))) = shouldRetry e"
  proof (cases "shouldRetry e")
    case True
    let ?t1 = "trace0\<lparr>calls := Suc (calls trace0),
          sleeps := sleeps trace0 @ [RETRY_DELAY REQUEST_CONFIG * (defaultRetries apiClient - 3 + 1)]\<rparr>"
    have "calls ?t1 < calls (snd (withRetry apiClient ?op (3 - 1) ?t1))"
      by (rule withRetry_calls_gt)
    moreover have "withRetry apiClient ?op 3 trace0 = withRetry apiClient ?op (3 - 1) ?t1"
      using op0 True by (intro withRetry_again) simp_all
    ultimately show ?thesis using True unfolding run by (simp add: trace0_def)
  next
    case False
    with op0 have "withRetry apiClient ?op 3 trace0 = (Inl e, trace0\<lparr>calls := Suc (calls trace0)\<rparr>)"
      by (intro withRetry_give_up) simp_all
    with False show ?thesis unfolding run by (simp add: trace0_def)
  qed
qed

theorem withRetry_retries_iff_retryable_witness:
  "(request_operation \<circ> net_404) (calls trace0) = Inl (ApiError ''Resource not found'' 404 (Some ''NOT_FOUND'') None)
   \<and> \<not> shouldRetry (ApiError ''Resource not found'' 404 (Some ''NOT_FOUND'') None)
   \<and> withRetry apiClient (request_operation \<circ> net_404) 3 trace0
       = (Inl (ApiError ''Resource not found'' 404 (Some ''NOT_FOUND'') None), \<lparr>calls = 1, sleeps = []\<rparr>)
   \<and> calls (snd (get apiClient net_404 no_config)) = 1
   \<and> (request_operation \<circ> net_503) (calls trace0) = Inl (ApiError ''Database unavailable'' 503 (Some ''SERVICE_UNAVAILABLE'') None)
   \<and> shouldRetry (ApiError ''Database unavailable'' 503 (Some ''SERVICE_UNAVAILABLE'') None)
   \<and> (0::int) < 3
   \<and> Suc (calls trace0) < calls (snd (withRetry apiClient (request_operation \<circ> net_503) 3 trace0))
   \<and> 1 < calls (snd (get apiClient net_503 no_config))"
proof -
  have a: "(request_operation \<circ> net_404) (calls trace0) = Inl (ApiError ''Resource not found'' 404 (Some ''NOT_FOUND'') None)"
    by (simp add: client_eval nets_eval)
  have b: "(request_operation \<circ> net_503) (calls trace0) = Inl (ApiError ''Database unavailable'' 503 (Some ''SERVICE_UNAVAILABLE'') None)"
    by (simp add: client_eval nets_eval)
  have c: "calls (snd (get apiClient net_404 no_config)) = 1"
    by (simp add: client_eval nets_eval)
  show ?thesis
    using
      withRetry_retries_iff_retryable
        [where operation = "request_operation \<circ> net_404" and t = trace0 and this = apiClient
           and retries = 3 and network = net_404, OF a]
      withRetry_retries_iff_retryable
        [where operation = "request_operation \<circ> net_503" and t = trace0 and this = apiClient
           and retries = 3 and network = net_503, OF b]
      a b c
    by (simp add: trace0_def)
qed

subsection \<open>The retry budget\<close>

lemma get_calls_le:
  "calls (snd (get apiClient network no_config)) \<le> 4"
  using withRetry_calls_le [of apiClient "request_operation \<circ> network" 3 trace0]
  by (simp add: get_def request_def no_config_def apiClient_def new_ApiClient_def
      REQUEST_CONFIG_def trace0_def)


text \<open>
  Claim C2, amended.  Under the default configuration a request makes at least one and
  at most four attempts (the first one and \<open>RETRY_ATTEMPTS = 3\<close> retries); what it
  settles with is the outcome of the last attempt made, unchanged; and when every
  attempt fails with a retryable error, exactly four attempts are made (so a fourth
  attempt is made and a fifth never is) and the fourth attempt's error is surfaced.
\<close>

theorem default_budget_is_four_attempts:
  "1 \<le> calls (snd (get apiClient network no_config))
   \<and> calls (snd (get apiClient network no_config)) \<le> 4
   \<and> fst (get apiClient network no_config)
       = request_operation (network (calls (snd (get apiClient network no_config)) - 1))
   \<and> ((\<forall>i. \<exists>e. request_operation (network i) = Inl e \<and> shouldRetry e) \<longrightarrow>
        calls (snd (get apiClient network no_config)) = 4
        \<and> fst (get apiClient network no_config) = request_operation (network 3))"
proof -
  let ?op = "request_operation \<circ> network"
  have run: "get apiClient network no_config = withRetry apiClient ?op 3 trace0"
    by (simp add: get_def request_def no_config_def apiClient_def new_ApiClient_def
        REQUEST_CONFIG_def)
  have lo: "1 \<le> calls (snd (withRetry apiClient ?op 3 trace0))"
    using withRetry_calls_gt [of trace0 apiClient ?op 3] by simp
  have hi: "calls (snd (withRetry apiClient ?op 3 trace0)) \<le> 4"
    using withRetry_calls_le [of apiClient ?op 3 trace0] by (simp add: trace0_def)
  have last: "fst (withRetry apiClient ?op 3 trace0)
       = request_operation (network (calls (snd (withRetry apiClient ?op 3 trace0)) - 1))"
    using withRetry_result_last [of apiClient ?op 3 trace0] by simp
  have all: "calls (snd (withRetry apiClient ?op 3 trace0)) = 4"
    if "\<forall>i. \<exists>e. request_operation (network i) = Inl e \<and> shouldRetry e"
    using that withRetry_calls_all_fail [of ?op apiClient 3 trace0] by (simp add: trace0_def)
  show ?thesis
    unfolding run using lo hi last all by simp
qed

theorem default_budget_is_four_attempts_witness:
  "calls (snd (get apiClient net_503 no_config)) = 4
   \<and> fst (get apiClient net_503 no_config)
       = Inl (ApiError ''Database unavailable'' 503 (Some ''SERVICE_UNAVAILABLE'') None)"
proof -
  have fails: "\<forall>i. \<exists>e. request_operation (net_503 i) = Inl e \<and> shouldRetry e"
    by (simp add: client_eval nets_eval)
  have "request_operation (net_503 3)
      = Inl (ApiError ''Database unavailable'' 503 (Some ''SERVICE_UNAVAILABLE'') None)"
    by (simp add: client_eval nets_eval)
  with fails default_budget_is_four_attempts [of net_503] show ?thesis
    by simp
qed

text \<open>
  Claim C2 as stated (at most three attempts in total) fails on a server that always
  answers 503: a fourth attempt is made.
\<close>

theorem fourth_attempt_made_counterexample:
  "\<not> calls (snd (get apiClient net_503 no_config)) \<le> 3"
  by (simp add: client_eval nets_eval)

subsection \<open>The backoff delays\<close>

lemma get_sleeps:
  "sleeps (snd (get this network config)) =
     map (\<lambda>j. RETRY_DELAY REQUEST_CONFIG *
            (defaultRetries this
              - (case cfg_retries config of None \<Rightarrow> defaultRetries this | Some n \<Rightarrow> n)
              + 1 + int j))
       [0 ..< calls (snd (get this network config)) - 1]"
  using withRetry_sleeps [of this "request_operation \<circ> network"
      "case cfg_retries config of None \<Rightarrow> defaultRetries this | Some n \<Rightarrow> n" trace0]
  by (simp add: get_def request_def trace0_def Let_def)


text \<open>
  Claim C6.  Under the default configuration, whatever the network does, the delay
  waited before the \<open>n\<close>-th retry is \<open>RETRY_DELAY * n\<close>; no delay exceeds the ceiling
  \<open>RETRY_DELAY * RETRY_ATTEMPTS\<close> (3000 ms); and the delays of one request are strictly
  increasing.
\<close>

theorem default_backoff_linear_bounded_increasing:
  "sleeps (snd (get apiClient network no_config))
     = map (\<lambda>n. RETRY_DELAY REQUEST_CONFIG * int n)
         [1 ..< calls (snd (get apiClient network no_config))]
   \<and> (\<forall>d \<in> set (sleeps (snd (get apiClient network no_config))).
         d \<le> RETRY_DELAY REQUEST_CONFIG * RETRY_ATTEMPTS REQUEST_CONFIG)
   \<and> sorted_wrt (<) (sleeps (snd (get apiClient network no_config)))"
proof -
  let ?k = "calls (snd (get apiClient network no_config))"
  have k: "?k \<le> 4" by (rule get_calls_le)
  have "sleeps (snd (get apiClient network no_config))
      = map (\<lambda>j. RETRY_DELAY REQUEST_CONFIG * (1 + int j)) [0 ..< ?k - 1]"
    using get_sleeps [of apiClient network no_config] by (simp add: no_config_def)
  also have "\<dots> = map (\<lambda>n. RETRY_DELAY REQUEST_CONFIG * int n) (map Suc [0 ..< ?k - 1])"
    by (simp add: algebra_simps)
  also have "map Suc [0 ..< ?k - 1] = [1 ..< ?k]"
    by (cases ?k) (simp_all add: map_Suc_upt)
  finally have eq: "sleeps (snd (get apiClient network no_config))
     = map (\<lambda>n. RETRY_DELAY REQUEST_CONFIG * int n) [1 ..< ?k]" .
  have bound: "\<forall>d \<in> set (map (\<lambda>n. RETRY_DELAY REQUEST_CONFIG * int n) [1 ..< ?k]).
      d \<le> RETRY_DELAY REQUEST_CONFIG * RETRY_ATTEMPTS REQUEST_CONFIG"
    using k by (auto simp add: REQUEST_CONFIG_def)
  have incr: "sorted_wrt (<) (map (\<lambda>n. RETRY_DELAY REQUEST_CONFIG * int n) [1 ..< ?k])"
    by (simp add: sorted_wrt_map REQUEST_CONFIG_def sorted_wrt_iff_nth_less)
  show ?thesis
    unfolding eq using bound incr by (intro conjI) simp_all
qed

theorem default_backoff_linear_bounded_increasing_witness:
  "calls (snd (get apiClient net_503_503_200 no_config)) = 3
   \<and> sleeps (snd (get apiClient net_503_503_200 no_config)) = [1000, 2000]
   \<and> fst (get apiClient net_503_503_200 no_config)
       = Inr \<lparr>data = ''[]'', response_status = 200, response_statusText = ''OK''\<rparr>"
proof -
  have c: "calls (snd (get apiClient net_503_503_200 no_config)) = 3"
    by (simp add: client_eval nets_eval)
  have r: "fst (get apiClient net_503_503_200 no_config)
       = Inr \<lparr>data = ''[]'', response_status = 200, response_statusText = ''OK''\<rparr>"
    by (simp add: client_eval nets_eval)
  from default_backoff_linear_bounded_increasing [of net_503_503_200]
  have "sleeps (snd (get apiClient net_503_503_200 no_config))
     = map (\<lambda>n. RETRY_DELAY REQUEST_CONFIG * int n) [1 ..< 3]"
    unfolding c by simp
  also have "\<dots> = [1000, 2000]"
    by (simp add: upt_conv_Cons REQUEST_CONFIG_def)
  finally show ?thesis using c r by simp
qed

text \<open>
  Claim C9.  The delay is counted from the client's \<open>defaultRetries\<close>, not from the
  retries the caller asked for: with \<open>retries: n\<close> and \<open>n > 3\<close>, the \<open>k\<close>-th delay
  (from 0) is \<open>RETRY_DELAY * (3 - n + 1 + k)\<close>, so each of the first \<open>n - 3\<close> delays is
  zero or negative; when every attempt fails with a retryable error all \<open>n\<close> retries
  are made, and under the default configuration the delays then are 1, 2 and 3 times
  \<open>RETRY_DELAY\<close>.
\<close>

theorem backoff_counts_from_default_retries:
  assumes "RETRY_ATTEMPTS REQUEST_CONFIG < n"
  shows
    "(\<forall>k < length (sleeps (snd (get apiClient network \<lparr>cfg_timeout = tmo, cfg_retries = Some n\<rparr>))).
        sleeps (snd (get apiClient network \<lparr>cfg_timeout = tmo, cfg_retries = Some n\<rparr>)) ! k
          = RETRY_DELAY REQUEST_CONFIG * (RETRY_ATTEMPTS REQUEST_CONFIG - n + 1 + int k)
        \<and> (int k < n - RETRY_ATTEMPTS REQUEST_CONFIG \<longrightarrow>
             sleeps (snd (get apiClient network \<lparr>cfg_timeout = tmo, cfg_retries = Some n\<rparr>)) ! k \<le> 0))
     \<and> ((\<forall>i. \<exists>e. request_operation (network i) = Inl e \<and> shouldRetry e) \<longrightarrow>
          length (sleeps (snd (get apiClient network \<lparr>cfg_timeout = tmo, cfg_retries = Some n\<rparr>))) = nat n
          \<and> sleeps (snd (get apiClient network no_config))
              = [1 * RETRY_DELAY REQUEST_CONFIG, 2 * RETRY_DELAY REQUEST_CONFIG,
                 3 * RETRY_DELAY REQUEST_CONFIG])"
proof -
  let ?cfg = "\<lparr>cfg_timeout = tmo, cfg_retries = Some n\<rparr>"
  let ?ds = "sleeps (snd (get apiClient network ?cfg))"
  let ?c = "calls (snd (get apiClient network ?cfg))"
  have ds: "?ds = map (\<lambda>j. RETRY_DELAY REQUEST_CONFIG * (RETRY_ATTEMPTS REQUEST_CONFIG - n + 1 + int j))
      [0 ..< ?c - 1]"
    using get_sleeps [of apiClient network ?cfg]
    by (simp add: apiClient_def new_ApiClient_def)
  have nth: "?ds ! k = RETRY_DELAY REQUEST_CONFIG * (RETRY_ATTEMPTS REQUEST_CONFIG - n + 1 + int k)"
    if "k < length ?ds" for k
  proof -
    from that have "k < ?c - 1" by (simp add: ds)
    then show ?thesis by (simp add: ds)
  qed
  have nonpos: "?ds ! k \<le> 0"
    if "k < length ?ds" "int k < n - RETRY_ATTEMPTS REQUEST_CONFIG" for k
  proof -
    from that(2) have "RETRY_ATTEMPTS REQUEST_CONFIG - n + 1 + int k \<le> 0" by simp
    then have "RETRY_DELAY REQUEST_CONFIG * (RETRY_ATTEMPTS REQUEST_CONFIG - n + 1 + int k) \<le> 0"
      by (simp add: REQUEST_CONFIG_def)
    with nth [OF that(1)] show ?thesis by simp
  qed
  have all: "length ?ds = nat n
      \<and> sleeps (snd (get apiClient network no_config))
          = [1 * RETRY_DELAY REQUEST_CONFIG, 2 * RETRY_DELAY REQUEST_CONFIG,
             3 * RETRY_DELAY REQUEST_CONFIG]"
    if fails: "\<forall>i. \<exists>e. request_operation (network i) = Inl e \<and> shouldRetry e"
  proof
    from fails have f: "\<forall>i. \<exists>e. (request_operation \<circ> network) i = Inl e \<and> shouldRetry e"
      by simp
    have "?c = nat n + 1"
      using withRetry_calls_all_fail [OF f, of apiClient n trace0]
      by (simp add: get_def request_def trace0_def comp_def)
    then show "length ?ds = nat n" by (simp add: ds)
    have "calls (snd (get apiClient network no_config)) = 4"
      using withRetry_calls_all_fail [OF f, of apiClient 3 trace0]
      by (simp add: get_def request_def trace0_def no_config_def apiClient_def
          new_ApiClient_def REQUEST_CONFIG_def comp_def)
    then show "sleeps (snd (get apiClient network no_config))
          = [1 * RETRY_DELAY REQUEST_CONFIG, 2 * RETRY_DELAY REQUEST_CONFIG,
             3 * RETRY_DELAY REQUEST_CONFIG]"
      using get_sleeps [of apiClient network no_config]
      by (simp add: no_config_def upt_conv_Cons)
  qed
  show ?thesis
    using nth nonpos all by blast
qed

theorem backoff_counts_from_default_retries_witness:
  "RETRY_ATTEMPTS REQUEST_CONFIG < 5
   \<and> sleeps (snd (get apiClient net_timeout \<lparr>cfg_timeout = None, cfg_retries = Some 5\<rparr>))
       = [- 1000, 0, 1000, 2000, 3000]
   \<and> sleeps (snd (get apiClient net_timeout no_config)) = [1000, 2000, 3000]"
proof -
  have n: "RETRY_ATTEMPTS REQUEST_CONFIG < 5" by (simp add: REQUEST_CONFIG_def)
  have fails: "\<forall>i. \<exists>e. request_operation (net_timeout i) = Inl e \<and> shouldRetry e"
    by (simp add: client_eval nets_eval)
  let ?ds = "sleeps (snd (get apiClient net_timeout \<lparr>cfg_timeout = None, cfg_retries = Some 5\<rparr>))"
  from backoff_counts_from_default_retries [OF n, of net_timeout None] fails
  have len: "length ?ds = 5"
    and nth: "\<forall>k<5. ?ds ! k = RETRY_DELAY REQUEST_CONFIG * (RETRY_ATTEMPTS REQUEST_CONFIG - 5 + 1 + int k)"
    and dflt: "sleeps (snd (get apiClient net_timeout no_config))
              = [1 * RETRY_DELAY REQUEST_CONFIG, 2 * RETRY_DELAY REQUEST_CONFIG,
                 3 * RETRY_DELAY REQUEST_CONFIG]"
    by simp_all
  have "?ds = map (\<lambda>k. ?ds ! k) [0 ..< 5]"
    using len by (metis map_nth)
  also have "\<dots> = [- 1000, 0, 1000, 2000, 3000]"
    using nth by (simp add: upt_conv_Cons REQUEST_CONFIG_def)
  finally show ?thesis using n dflt by (simp add: REQUEST_CONFIG_def)
qed

section \<open>Properties of the metrics transformation\<close>

lemma transformMetricsResponse_length: "length (transformMetricsResponse r) = 5"
  by (simp add: transformMetricsResponse_def)

lemma less_5_cases: "i < 5 \<Longrightarrow> i = 0 \<or> i = 1 \<or> i = 2 \<or> i = 3 \<or> i = (4::nat)"
  by arith

lemma getMetricStatus_mono:
  "v1 \<le> v2 \<Longrightarrow> severity (getMetricStatus v1 c w) \<le> severity (getMetricStatus v2 c w)"
  by (simp add: getMetricStatus_def)

lemma getHealthStatus_antimono:
  "v1 \<le> v2 \<Longrightarrow> severity (getHealthStatus v2) \<le> severity (getHealthStatus v1)"
  by (simp add: getHealthStatus_def)

text \<open>
  Claim C3, amended.  The transformation compares nothing with a previous response: the
  trend of each of the five metrics it produces is \<open>stable\<close>, whatever the values.
\<close>

theorem trend_always_stable:
  "map trend (transformMetricsResponse apiResponse) = [stable, stable, stable, stable, stable]"
  by (simp add: transformMetricsResponse_def)

text \<open>
  Claim C3 as stated fails on two consecutive responses whose CPU usage rises from 45 to
  90: the trend reported with the second is \<open>stable\<close>, not \<open>up\<close>.
\<close>

theorem trend_not_up_counterexample:
  "cpu_usage response_before + 1 < cpu_usage response_after
   \<and> value (transformMetricsResponse response_before ! 0) + 1
       < value (transformMetricsResponse response_after ! 0)
   \<and> trend (transformMetricsResponse response_after ! 0) \<noteq> up
   \<and> map trend (transformMetricsResponse response_after) = [stable, stable, stable, stable, stable]"
  by (simp add: transformMetricsResponse_def response_before_def response_after_def)

text \<open>
  Claim C4, amended.  For each of the five metrics the status is a function of the
  metric's value alone.  For CPU usage, memory usage, network traffic and container
  count (positions 0 to 3) raising the value never improves the status; for overall
  health (position 4) the direction is the opposite one: raising the value never
  degrades the status.
\<close>

theorem status_monotone_per_metric:
  assumes "i < 5"
  shows "(value (transformMetricsResponse r1 ! i) = value (transformMetricsResponse r2 ! i) \<longrightarrow>
            status (transformMetricsResponse r1 ! i) = status (transformMetricsResponse r2 ! i))
       \<and> (value (transformMetricsResponse r1 ! i) \<le> value (transformMetricsResponse r2 ! i) \<longrightarrow>
            (if i < 4
             then severity (status (transformMetricsResponse r1 ! i))
                    \<le> severity (status (transformMetricsResponse r2 ! i))
             else severity (status (transformMetricsResponse r2 ! i))
                    \<le> severity (status (transformMetricsResponse r1 ! i))))"
proof -
  from assms consider "i = 0" | "i = 1" | "i = 2" | "i = 3" | "i = 4"
    using less_5_cases by blast
  then show ?thesis
  proof cases
    case 1
    then show ?thesis
      by (simp add: transformMetricsResponse_def getMetricStatus_mono)
  next
    case 2
    then show ?thesis
      by (simp add: transformMetricsResponse_def getMetricStatus_mono)
  next
    case 3
    then show ?thesis
      by (simp add: transformMetricsResponse_def)
  next
    case 4
    then show ?thesis
      by (simp add: transformMetricsResponse_def)
  next
    case 5
    then show ?thesis
      by (simp add: transformMetricsResponse_def getHealthStatus_antimono)
  qed
qed

theorem status_monotone_per_metric_witness:
  "(0::nat) < 5
   \<and> value (transformMetricsResponse response_before ! 0)
       \<le> value (transformMetricsResponse response_after ! 0)
   \<and> severity (status (transformMetricsResponse response_before ! 0))
       \<le> severity (status (transformMetricsResponse response_after ! 0))
   \<and> status (transformMetricsResponse response_before ! 0) = healthy
   \<and> status (transformMetricsResponse response_after ! 0) = critical"
proof -
  have i: "(0::nat) < 5" by simp
  have le: "value (transformMetricsResponse response_before ! 0)
       \<le> value (transformMetricsResponse response_after ! 0)"
    by (simp add: transformMetricsResponse_def response_before_def response_after_def)
  have st: "status (transformMetricsResponse response_before ! 0) = healthy"
    "status (transformMetricsResponse response_after ! 0) = critical"
    by (simp_all add: transformMetricsResponse_def response_before_def response_after_def
        getMetricStatus_def)
  from status_monotone_per_metric [OF i, of response_before response_after] le
  have "severity (status (transformMetricsResponse response_before ! 0))
       \<le> severity (status (transformMetricsResponse response_after ! 0))"
    by simp
  with i le st show ?thesis by simp
qed

text \<open>
  Claim C4 as stated fails for the overall health metric: raising it from 50 to 95 takes
  the status from \<open>critical\<close> to \<open>healthy\<close>, a strictly better one.
\<close>

theorem overall_health_improves_counterexample:
  "value (transformMetricsResponse response_before ! 4)
     \<le> value (transformMetricsResponse response_after ! 4)
   \<and> status (transformMetricsResponse response_before ! 4) = critical
   \<and> status (transformMetricsResponse response_after ! 4) = healthy
   \<and> severity (status (transformMetricsResponse response_after ! 4))
       < severity (status (transformMetricsResponse response_before ! 4))"
  by (simp add: transformMetricsResponse_def response_before_def response_after_def
      getHealthStatus_def)

text \<open>
  Claim C5.  The status of the CPU usage metric (critical threshold 80, warning
  threshold 60) is \<open>getMetricStatus\<close> of the CPU value alone, whatever the rest of the
  response; the value 59 gives \<open>healthy\<close>, 61 gives \<open>warning\<close> and 81 gives
  \<open>critical\<close>.
\<close>

theorem cpu_status_thresholds:
  "name (transformMetricsResponse apiResponse ! 0) = ''CPU Usage''
   \<and> status (transformMetricsResponse apiResponse ! 0)
       = getMetricStatus (cpu_usage apiResponse) 80 60
   \<and> status (transformMetricsResponse (apiResponse\<lparr>cpu_usage := 59\<rparr>) ! 0) = healthy
   \<and> status (transformMetricsResponse (apiResponse\<lparr>cpu_usage := 61\<rparr>) ! 0) = warning
   \<and> status (transformMetricsResponse (apiResponse\<lparr>cpu_usage := 81\<rparr>) ! 0) = critical
   \<and> getMetricStatus 59 80 60 = healthy
   \<and> getMetricStatus 61 80 60 = warning
   \<and> getMetricStatus 81 80 60 = critical"
  by (simp add: transformMetricsResponse_def getMetricStatus_def)

section \<open>Properties of the query hooks\<close>

subsection \<open>Retries of a query\<close>

text \<open>
  A failed query is run again while fewer than three failures were counted, unless the
  failure is an \<open>ApiError\<close> with a 4xx status; the delay doubles from one second and is
  capped at thirty.
\<close>

lemma DEFAULT_QUERY_OPTIONS_retry_iff:
  "DEFAULT_QUERY_OPTIONS_retry failureCount e =
     (failureCount < 3 \<and> \<not> (\<exists>m s c d. e = ApiError m s c d \<and> 400 \<le> s \<and> s < 500))"
  by (cases e) (auto simp add: DEFAULT_QUERY_OPTIONS_retry_def)

lemma DEFAULT_QUERY_OPTIONS_retryDelay_capped:
  "DEFAULT_QUERY_OPTIONS_retryDelay attemptIndex \<le> 30000"
  by (simp add: DEFAULT_QUERY_OPTIONS_retryDelay_def)

subsection \<open>Refresh intervals\<close>

text \<open>An interval the caller passes replaces the hook's own.\<close>

lemma caller_refetchInterval_wins:
  "refetchInterval options \<noteq> Absent \<Longrightarrow>
   refetchInterval (useMetrics options) = refetchInterval options
   \<and> refetchInterval (useServices options) = refetchInterval options
   \<and> refetchInterval (useLogs options) = refetchInterval options
   \<and> refetchInterval (useSystemStatus options) = refetchInterval options"
  by (cases "refetchInterval options")
    (simp_all add: useMetrics_def useServices_def useLogs_def useSystemStatus_def spread_def
      later_def)

text \<open>
  Claim C8.  When the caller does not override \<open>refetchInterval\<close>, the metrics hook
  polls every 5000 ms, the services hook every 10000 ms, the logs hook every 15000 ms
  and the status hook every 30000 ms: the metrics interval is strictly the smallest of
  the four and the status interval strictly the largest.
\<close>

theorem refetch_intervals_ordered:
  assumes "refetchInterval om = Absent" and "refetchInterval os = Absent"
    and "refetchInterval ol = Absent" and "refetchInterval ot = Absent"
  shows "\<exists>m s l t.
           refetchInterval (useMetrics om) = Present m
         \<and> refetchInterval (useServices os) = Present s
         \<and> refetchInterval (useLogs ol) = Present l
         \<and> refetchInterval (useSystemStatus ot) = Present t
         \<and> m < s \<and> m < l \<and> m < t \<and> s < t \<and> l < t"
  using assms
  by (simp add: useMetrics_def useServices_def useLogs_def useSystemStatus_def spread_def
      later_def DEFAULT_QUERY_OPTIONS_def no_options_def)

theorem refetch_intervals_ordered_witness:
  "refetchInterval no_options = Absent
   \<and> refetchInterval (useMetrics no_options) = Present 5000
   \<and> refetchInterval (useServices no_options) = Present 10000
   \<and> refetchInterval (useLogs no_options) = Present 15000
   \<and> refetchInterval (useSystemStatus no_options) = Present 30000"
proof -
  have n: "refetchInterval no_options = Absent" by (simp add: no_options_def)
  from refetch_intervals_ordered [OF n n n n] n show ?thesis
    by (simp add: useMetrics_def useServices_def useLogs_def useSystemStatus_def spread_def
      later_def DEFAULT_QUERY_OPTIONS_def no_options_def)
qed

subsection \<open>The logs query\<close>

lemma serialize_nonempty: "ps \<noteq> [] \<Longrightarrow> serialize ps \<noteq> []"
  by (induction ps rule: serialize.induct) simp_all

lemma number_entry:
  "((k, v) \<in> set (case x of Some n \<Rightarrow> if truthy n then [(key, toString n)] else [] | None \<Rightarrow> []))
     = (k = key \<and> (\<exists>n. x = Some n \<and> truthy n \<and> v = toString n))"
  by (cases x) auto

lemma string_entry:
  "((k, v) \<in> set (case x of Some s \<Rightarrow> if s \<noteq> [] then [(key, s)] else [] | None \<Rightarrow> []))
     = (k = key \<and> x = Some v \<and> v \<noteq> [])"
  by (cases x) auto

lemma useLogs_endpoint_queryParams:
  "queryParams toString p = queryParams toString q \<Longrightarrow>
   useLogs_endpoint toString p = useLogs_endpoint toString q"
  by (simp add: useLogs_endpoint_def)

text \<open>
  Claim C10, amended.  The logs hook appends a parameter to the query exactly when its
  value is truthy: \<open>limit\<close> and \<open>offset\<close> when present and neither 0 nor \<open>NaN\<close> (with
  their text as the value), \<open>level\<close> and \<open>service\<close> when present and not the empty
  string.  A falsy parameter is left out of the query altogether: the request is the
  very request of a caller who did not pass the parameter, so the server applies its
  default, not the caller's zero or empty value; with no truthy parameter the endpoint
  is the bare logs path.  A negative limit or offset is truthy, so it appears in the
  request.
\<close>

theorem logs_query_keeps_truthy_params:
  "((k, v) \<in> set (queryParams toString params)) =
     (k = ''limit'' \<and> (\<exists>n. limit params = Some n \<and> truthy n \<and> v = toString n)
      \<or> k = ''level'' \<and> level params = Some v \<and> v \<noteq> []
      \<or> k = ''service'' \<and> service params = Some v \<and> v \<noteq> []
      \<or> k = ''offset'' \<and> (\<exists>n. offset params = Some n \<and> truthy n \<and> v = toString n))
   \<and> truthy n = (n \<noteq> NaN \<and> n \<noteq> Number 0)
   \<and> (x < 0 \<longrightarrow> truthy (Number x))
   \<and> useLogs_endpoint toString params =
       (if queryParams toString params = [] then API_ENDPOINTS_LOGS
        else API_ENDPOINTS_LOGS @ ''?'' @ serialize (queryParams toString params))
   \<and> (limit params = Some (Number 0) \<or> limit params = Some NaN \<longrightarrow>
        useLogs_endpoint toString params = useLogs_endpoint toString (params\<lparr>limit := None\<rparr>))
   \<and> (offset params = Some (Number 0) \<or> offset params = Some NaN \<longrightarrow>
        useLogs_endpoint toString params = useLogs_endpoint toString (params\<lparr>offset := None\<rparr>))
   \<and> (level params = Some [] \<longrightarrow>
        useLogs_endpoint toString params = useLogs_endpoint toString (params\<lparr>level := None\<rparr>))
   \<and> (service params = Some [] \<longrightarrow>
        useLogs_endpoint toString params = useLogs_endpoint toString (params\<lparr>service := None\<rparr>))"
proof (intro conjI impI)
  show "((k, v) \<in> set (queryParams toString params)) =
     (k = ''limit'' \<and> (\<exists>n. limit params = Some n \<and> truthy n \<and> v = toString n)
      \<or> k = ''level'' \<and> level params = Some v \<and> v \<noteq> []
      \<or> k = ''service'' \<and> service params = Some v \<and> v \<noteq> []
      \<or> k = ''offset'' \<and> (\<exists>n. offset params = Some n \<and> truthy n \<and> v = toString n))"
    unfolding queryParams_def set_append Un_iff number_entry string_entry ..
next
  show "truthy n = (n \<noteq> NaN \<and> n \<noteq> Number 0)"
    by (cases n) (simp_all add: truthy_def)
next
  assume "x < 0"
  then show "truthy (Number x)" by (simp add: truthy_def)
next
  show "useLogs_endpoint toString params =
       (if queryParams toString params = [] then API_ENDPOINTS_LOGS
        else API_ENDPOINTS_LOGS @ ''?'' @ serialize (queryParams toString params))"
    using serialize_nonempty [of "queryParams toString params"]
    by (simp add: useLogs_endpoint_def Let_def)
next
  assume "limit params = Some (Number 0) \<or> limit params = Some NaN"
  then have "queryParams toString params = queryParams toString (params\<lparr>limit := None\<rparr>)"
    by (auto simp add: queryParams_def truthy_def)
  then show "useLogs_endpoint toString params = useLogs_endpoint toString (params\<lparr>limit := None\<rparr>)"
    by (rule useLogs_endpoint_queryParams)
next
  assume "offset params = Some (Number 0) \<or> offset params = Some NaN"
  then have "queryParams toString params = queryParams toString (params\<lparr>offset := None\<rparr>)"
    by (auto simp add: queryParams_def truthy_def)
  then show "useLogs_endpoint toString params = useLogs_endpoint toString (params\<lparr>offset := None\<rparr>)"
    by (rule useLogs_endpoint_queryParams)
next
  assume "level params = Some []"
  then have "queryParams toString params = queryParams toString (params\<lparr>level := None\<rparr>)"
    by (simp add: queryParams_def)
  then show "useLogs_endpoint toString params = useLogs_endpoint toString (params\<lparr>level := None\<rparr>)"
    by (rule useLogs_endpoint_queryParams)
next
  assume "service params = Some []"
  then have "queryParams toString params = queryParams toString (params\<lparr>service := None\<rparr>)"
    by (simp add: queryParams_def)
  then show "useLogs_endpoint toString params = useLogs_endpoint toString (params\<lparr>service := None\<rparr>)"
    by (rule useLogs_endpoint_queryParams)
qed

lemmas logs_eval =
  useLogs_endpoint_def queryParams_def truthy_def integer_text_def digits.simps digit_char_def
  urlencode_def urlencode_byte_def unreserved_def API_ENDPOINTS_LOGS_def Let_def

theorem logs_query_keeps_truthy_params_witness:
  "limit \<lparr>limit = Some (Number 0), level = Some '''', service = Some '''', offset = Some NaN\<rparr>
     = Some (Number 0)
   \<and> offset \<lparr>limit = Some (Number 0), level = Some '''', service = Some '''', offset = Some NaN\<rparr>
       = Some NaN
   \<and> level \<lparr>limit = Some (Number 0), level = Some '''', service = Some '''', offset = Some NaN\<rparr>
       = Some []
   \<and> service \<lparr>limit = Some (Number 0), level = Some '''', service = Some '''', offset = Some NaN\<rparr>
       = Some []
   \<and> (- 5 :: real) < 0
   \<and> truthy (Number (- 5))
   \<and> useLogs_endpoint integer_text
         \<lparr>limit = Some (Number 0), level = Some '''', service = Some '''', offset = Some NaN\<rparr>
       = useLogs_endpoint integer_text
         \<lparr>limit = None, level = Some '''', service = Some '''', offset = Some NaN\<rparr>
   \<and> useLogs_endpoint integer_text
         \<lparr>limit = Some (Number 0), level = Some '''', service = Some '''', offset = Some NaN\<rparr>
       = useLogs_endpoint integer_text
         \<lparr>limit = Some (Number 0), level = Some '''', service = Some '''', offset = None\<rparr>
   \<and> useLogs_endpoint integer_text
         \<lparr>limit = Some (Number 0), level = Some '''', service = Some '''', offset = Some NaN\<rparr>
       = useLogs_endpoint integer_text
         \<lparr>limit = Some (Number 0), level = None, service = Some '''', offset = Some NaN\<rparr>
   \<and> useLogs_endpoint integer_text
         \<lparr>limit = Some (Number 0), level = Some '''', service = Some '''', offset = Some NaN\<rparr>
       = useLogs_endpoint integer_text
         \<lparr>limit = Some (Number 0), level = Some '''', service = None, offset = Some NaN\<rparr>
   \<and> useLogs_endpoint integer_text
         \<lparr>limit = Some (Number 0), level = Some '''', service = Some '''', offset = Some NaN\<rparr>
       = ''/logs/''
   \<and> useLogs_endpoint integer_text
         \<lparr>limit = Some (Number 50), level = Some ''error'', service = Some '''',
          offset = Some (Number 0)\<rparr>
       = ''/logs/?limit=50&level=error''"
proof -
  let ?p = "\<lparr>limit = Some (Number 0), level = Some '''', service = Some '''',
             offset = Some NaN\<rparr>"
  have h: "limit ?p = Some (Number 0)" "offset ?p = Some NaN" "level ?p = Some []"
    "service ?p = Some []" "(- 5 :: real) < 0"
    by simp_all
  from h
    logs_query_keeps_truthy_params
      [where k = "''limit''" and v = "''50''" and toString = integer_text and params = ?p
         and n = NaN and x = "- 5"]
  have "truthy (Number (- 5))"
    and "useLogs_endpoint integer_text ?p = useLogs_endpoint integer_text (?p\<lparr>limit := None\<rparr>)"
    and "useLogs_endpoint integer_text ?p = useLogs_endpoint integer_text (?p\<lparr>offset := None\<rparr>)"
    and "useLogs_endpoint integer_text ?p = useLogs_endpoint integer_text (?p\<lparr>level := None\<rparr>)"
    and "useLogs_endpoint integer_text ?p = useLogs_endpoint integer_text (?p\<lparr>service := None\<rparr>)"
    by blast+
  moreover have "useLogs_endpoint integer_text ?p = ''/logs/''"
    by (simp add: logs_eval)
  moreover have "useLogs_endpoint integer_text
         \<lparr>limit = Some (Number 50), level = Some ''error'', service = Some '''',
          offset = Some (Number 0)\<rparr>
       = ''/logs/?limit=50&level=error''"
    by (simp add: logs_eval)
  ultimately show ?thesis using h by simp
qed

text \<open>
  Claim C10 as stated (only strictly positive limits and offsets appear) fails for the
  limit -5, which is sent as \<open>limit=-5\<close>.
\<close>

theorem negative_limit_appears_counterexample:
  "\<not> 0 < (- 5 :: real)
   \<and> (''limit'', ''-5'') \<in> set (queryParams integer_text
        \<lparr>limit = Some (Number (- 5)), level = None, service = None, offset = None\<rparr>)
   \<and> useLogs_endpoint integer_text
        \<lparr>limit = Some (Number (- 5)), level = None, service = None, offset = None\<rparr>
       = ''/logs/?limit=-5''"
  by (simp add: logs_eval)

section \<open>Properties of the services table\<close>

lemma and_then_Inr:
  "and_then r f = Inr y \<Longrightarrow> \<exists>x. r = Inr x \<and> f x = Inr y"
  by (cases r) (simp_all add: and_then_def)

lemma checks_Inr:
  "checks r = Inr r' \<Longrightarrow> r' = r \<and> uptime_check (uptime r)"
  by (auto simp add: checks_def split: if_splits)

lemma uptime_column_Inr_Some:
  "uptime_column v = Inr u \<Longrightarrow> v \<noteq> NULL \<Longrightarrow> u \<noteq> None"
  by (cases v) (auto simp add: uptime_column_def dest!: and_then_Inr)

lemma insert_service_Inr:
  assumes "insert_service now v rows = Inr rows'"
  shows "\<exists>r. rows' = rows @ [r] \<and> uptime_check (uptime r)
             \<and> (ins_uptime v \<noteq> NULL \<longrightarrow> uptime r \<noteq> None)"
proof -
  from assms obtain u i' n' s' r where
    u: "uptime_column (ins_uptime v) = Inr u"
    and c: "checks \<lparr>svc_id = i', svc_name = n', svc_status = s', uptime = u,
                        last_checked = Some now, created_at = Some now,
                        updated_at = Some now\<rparr> = Inr r"
    and f: "(if i' \<in> set (map svc_id rows) then Inl unique_violation
             else Inr (rows @ [r])) = Inr rows'"
    unfolding insert_service_def by (blast dest!: and_then_Inr)
  from f have rows': "rows' = rows @ [r]" by (simp split: if_splits)
  from checks_Inr [OF c] have r: "uptime r = u" "uptime_check (uptime r)" by auto
  from uptime_column_Inr_Some [OF u] r(1)
  have "ins_uptime v \<noteq> NULL \<longrightarrow> uptime r \<noteq> None" by simp
  with rows' r show ?thesis by blast
qed

lemma update_row_Inr:
  assumes "update_row now u r = Inr r'"
  shows "uptime_check (uptime r')
       \<and> ((case upd_uptime u of
               None \<Rightarrow> True
             | Some e \<Rightarrow> assigned_value e r = NULL \<longrightarrow> uptime r = None) \<longrightarrow>
            uptime r \<noteq> None \<longrightarrow> uptime r' \<noteq> None)"
proof -
  from assms obtain s p where
    p: "(case upd_uptime u of
           None \<Rightarrow> Inr (uptime r)
         | Some e \<Rightarrow> uptime_column (assigned_value e r)) = Inr p"
    and c: "checks (r\<lparr>svc_status := s, uptime := p, last_checked := Some now,
               updated_at := Some now\<rparr>) = Inr r'"
    unfolding update_row_def by (blast dest!: and_then_Inr)
  from checks_Inr [OF c] have r': "uptime r' = p" "uptime_check (uptime r')" by auto
  have "p \<noteq> None"
    if "case upd_uptime u of
          None \<Rightarrow> True
        | Some e \<Rightarrow> assigned_value e r = NULL \<longrightarrow> uptime r = None"
      and "uptime r \<noteq> None"
  proof (cases "upd_uptime u")
    case None
    with p that show ?thesis by simp
  next
    case (Some f)
    with that have "assigned_value f r \<noteq> NULL" by auto
    with p Some show ?thesis by (simp add: uptime_column_Inr_Some)
  qed
  with r' show ?thesis by simp
qed


lemma update_rows_Inr:
  "update_rows now u rows = Inr rows' \<Longrightarrow> r' \<in> set rows' \<Longrightarrow>
   r' \<in> set rows \<or> (\<exists>r \<in> set rows. update_row now u r = Inr r')"
proof (induction rows arbitrary: rows')
  case Nil
  then show ?case by simp
next
  case (Cons r rows)
  show ?case
  proof (cases "upd_where u r")
    case True
    with Cons.prems(1) obtain r1 rows1 where
      r1: "update_row now u r = Inr r1"
      and rows1: "update_rows now u rows = Inr rows1"
      and rows': "rows' = r1 # rows1"
      by (auto dest!: and_then_Inr)
    from Cons.prems(2) rows' consider "r' = r1" | "r' \<in> set rows1" by auto
    then show ?thesis
    proof cases
      case 1
      with r1 show ?thesis by auto
    next
      case 2
      from Cons.IH [OF rows1 2] show ?thesis by auto
    qed
  next
    case False
    with Cons.prems(1) obtain rows1 where
      rows1: "update_rows now u rows = Inr rows1"
      and rows': "rows' = r # rows1"
      by (auto dest!: and_then_Inr)
    from Cons.prems(2) rows' consider "r' = r" | "r' \<in> set rows1" by auto
    then show ?thesis
    proof cases
      case 1
      then show ?thesis by simp
    next
      case 2
      from Cons.IH [OF rows1 2] show ?thesis by auto
    qed
  qed
qed

text \<open>One statement keeps the \<open>CHECK\<close> on the uptime of every row.\<close>

lemma execute_keeps_check:
  assumes "execute now stmt rows = Inr rows'"
    and "\<forall>r \<in> set rows. uptime_check (uptime r)"
  shows "\<forall>r \<in> set rows'. uptime_check (uptime r)"
proof (cases stmt)
  case (Insert v)
  with assms(1) have "insert_service now v rows = Inr rows'" by simp
  from insert_service_Inr [OF this] assms(2) show ?thesis by auto
next
  case (Update u)
  with assms(1) have upd: "update_rows now u rows = Inr rows'"
    by (auto simp add: update_def dest!: and_then_Inr)
  show ?thesis
  proof
    fix r' assume "r' \<in> set rows'"
    from update_rows_Inr [OF upd this] assms(2) show "uptime_check (uptime r')"
      by (auto dest: update_row_Inr)
  qed
qed

lemma execute_keeps_numeric:
  assumes "execute now stmt rows = Inr rows'"
    and "keeps_uptime_numeric stmt"
    and "\<forall>r \<in> set rows. uptime r \<noteq> None"
  shows "\<forall>r \<in> set rows'. uptime r \<noteq> None"
proof (cases stmt)
  case (Insert v)
  with assms(1) have ins: "insert_service now v rows = Inr rows'" by simp
  from Insert assms(2) have "ins_uptime v \<noteq> NULL" by (simp add: keeps_uptime_numeric_def)
  with insert_service_Inr [OF ins] assms(3) show ?thesis by auto
next
  case (Update u)
  with assms(1) have upd: "update_rows now u rows = Inr rows'"
    by (auto simp add: update_def dest!: and_then_Inr)
  show ?thesis
  proof
    fix r' assume "r' \<in> set rows'"
    from update_rows_Inr [OF upd this]
    consider "r' \<in> set rows" | r where "r \<in> set rows" "update_row now u r = Inr r'"
      by blast
    then show "uptime r' \<noteq> None"
    proof cases
      case 1
      with assms(3) show ?thesis by simp
    next
      case 2
      from Update assms(2)
      have "case upd_uptime u of
              None \<Rightarrow> True
            | Some e \<Rightarrow> assigned_value e r = NULL \<longrightarrow> uptime r = None"
        by (simp add: keeps_uptime_numeric_def split: option.splits)
      with update_row_Inr [OF 2(2)] 2(1) assms(3) show ?thesis by simp
    qed
  qed
qed

lemma run_keeps_check:
  "\<forall>r \<in> set rows. uptime_check (uptime r) \<Longrightarrow>
   \<forall>r \<in> set (run rows stmts). uptime_check (uptime r)"
proof (induction stmts arbitrary: rows)
  case Nil
  then show ?case by simp
next
  case (Cons a stmts)
  obtain now stmt where a: "a = (now, stmt)" by (cases a)
  show ?case
  proof (cases "execute now stmt rows")
    case (Inl e)
    with a Cons show ?thesis by simp
  next
    case (Inr rows')
    from execute_keeps_check [OF Inr Cons.prems]
    have "\<forall>r \<in> set (run rows' stmts). uptime_check (uptime r)" by (rule Cons.IH)
    with a Inr show ?thesis by simp
  qed
qed

lemma run_keeps_numeric:
  "\<forall>r \<in> set rows. uptime r \<noteq> None \<Longrightarrow>
   \<forall>s \<in> set stmts. keeps_uptime_numeric (snd s) \<Longrightarrow>
   \<forall>r \<in> set (run rows stmts). uptime r \<noteq> None"
proof (induction stmts arbitrary: rows)
  case Nil
  then show ?case by simp
next
  case (Cons a stmts)
  obtain now stmt where a: "a = (now, stmt)" by (cases a)
  from Cons.prems(2) a have k: "keeps_uptime_numeric stmt"
    and rest: "\<forall>s \<in> set stmts. keeps_uptime_numeric (snd s)" by simp_all
  show ?case
  proof (cases "execute now stmt rows")
    case (Inl e)
    with a Cons.IH [OF Cons.prems(1) rest] show ?thesis by simp
  next
    case (Inr rows')
    from execute_keeps_numeric [OF Inr k Cons.prems(1)]
    have "\<forall>r \<in> set (run rows' stmts). uptime r \<noteq> None" using rest by (rule Cons.IH)
    with a Inr show ?thesis by simp
  qed
qed

lemma init_db_check: "\<forall>r \<in> set (init_db now). uptime_check (uptime r)"
  unfolding init_db_def by (rule run_keeps_check) simp

lemma init_db_numeric: "\<forall>r \<in> set (init_db now). uptime r \<noteq> None"
  unfolding init_db_def
  by (rule run_keeps_numeric) (simp_all add: seed_values_def keeps_uptime_numeric_def)

lemma uptime_check_percent:
  "uptime_check (uptime r) = (\<forall>p. uptime_percent r = Some p \<longrightarrow> 0 \<le> p \<and> p \<le> 100)"
  by (cases "uptime r") (auto simp add: uptime_check_def uptime_percent_def)

text \<open>
  Claim C7.  The table's \<open>CHECK (uptime >= 0.0 AND uptime <= 100.0)\<close> holds of every
  row it stores: starting from the rows the script inserts, after any sequence of
  inserts and updates (status transitions and uptime adjustments among them; a
  statement the table refuses changes nothing) every stored uptime percentage is within
  [0, 100].  The column allows \<open>NULL\<close>; as long as no statement puts \<open>NULL\<close> where a
  number was, every row has an uptime percentage, and it is within [0, 100].
\<close>

theorem stored_uptime_stays_in_range:
  "(\<forall>r \<in> set (run (init_db now) stmts).
      \<forall>p. uptime_percent r = Some p \<longrightarrow> 0 \<le> p \<and> p \<le> 100)
   \<and> ((\<forall>s \<in> set stmts. keeps_uptime_numeric (snd s)) \<longrightarrow>
        (\<forall>r \<in> set (run (init_db now) stmts).
           \<exists>p. uptime_percent r = Some p \<and> 0 \<le> p \<and> p \<le> 100))"
proof (intro conjI impI ballI)
  fix r assume r: "r \<in> set (run (init_db now) stmts)"
  from run_keeps_check [OF init_db_check, of now stmts] r
  have c: "uptime_check (uptime r)" by blast
  then show "\<forall>p. uptime_percent r = Some p \<longrightarrow> 0 \<le> p \<and> p \<le> 100"
    by (simp add: uptime_check_percent)
  assume "\<forall>s \<in> set stmts. keeps_uptime_numeric (snd s)"
  from run_keeps_numeric [OF init_db_numeric this, of now] r
  obtain h where "uptime r = Some h" by blast
  then have "uptime_percent r = Some (decimal_value h)" by (simp add: uptime_percent_def)
  with c show "\<exists>p. uptime_percent r = Some p \<and> 0 \<le> p \<and> p \<le> 100"
    by (simp add: uptime_check_percent)
qed

subsection \<open>The sample statements\<close>

lemma floor_rat_numeral:
  "\<lfloor>(numeral a :: rat) / numeral b\<rfloor> = numeral a div numeral b"
  using floor_divide_of_int_eq [of "numeral a" "numeral b", where ?'a = rat] by simp

lemma floor_rat_neg_numeral:
  "\<lfloor>- (numeral a :: rat) / numeral b\<rfloor> = - numeral a div numeral b"
  using floor_divide_of_int_eq [of "- numeral a" "numeral b", where ?'a = rat] by simp

lemmas db_eval =
  floor_rat_numeral floor_rat_neg_numeral
  init_db_def seed_values_def insert_service_def update_def plan_update_def update_row_def
  and_then_def varchar_def
  decimal_5_2_def round_half_away_def uptime_column_def checks_def status_check_def
  uptime_check_def decimal_value_def uptime_percent_def not_null_def Let_def
  sample_statements_def degrade_gateway_def add_five_everywhere_def payment_below_zero_def
  insert_search_def

lemma sample_statements_numeric:
  "\<forall>s \<in> set sample_statements. keeps_uptime_numeric (snd s)"
  by (simp add: keeps_uptime_numeric_def sample_statements_def degrade_gateway_def
      add_five_everywhere_def payment_below_zero_def insert_search_def uptime_percent_def
      split: option.splits)

theorem stored_uptime_stays_in_range_witness:
  "list_all (\<lambda>r. \<exists>p. uptime_percent r = Some p \<and> 0 \<le> p \<and> p \<le> 100)
     (run (init_db 0) sample_statements)
   \<and> map uptime (run (init_db 0) sample_statements)
       = [Some 9898, Some 9995, Some 9987, Some 9845, Some 9992, Some 9999, Some 0]
   \<and> execute 2 add_five_everywhere (init_db 0) = Inl check_violation
   \<and> execute 3 payment_below_zero (init_db 0) = Inl check_violation"
proof -
  from stored_uptime_stays_in_range [of 0 sample_statements] sample_statements_numeric
  have "\<forall>r \<in> set (run (init_db 0) sample_statements).
          \<exists>p. uptime_percent r = Some p \<and> 0 \<le> p \<and> p \<le> 100"
    by blast
  then have "list_all (\<lambda>r. \<exists>p. uptime_percent r = Some p \<and> 0 \<le> p \<and> p \<le> 100)
     (run (init_db 0) sample_statements)"
    by (simp add: list_all_iff)
  moreover have "map uptime (run (init_db 0) sample_statements)
       = [Some 9898, Some 9995, Some 9987, Some 9845, Some 9992, Some 9999, Some 0]"
    by (simp add: db_eval)
  moreover have "execute 2 add_five_everywhere (init_db 0) = Inl check_violation"
    by (simp add: db_eval)
  moreover have "execute 3 payment_below_zero (init_db 0) = Inl check_violation"
    by (simp add: db_eval)
  ultimately show ?thesis by simp
qed

end
